theory Spec2Isabelle
  imports Complex_Main "HOL-Library.Word" "HOL-Library.Sublist"
begin

section \<open>JavaScript strings\<close>

text \<open>
  A JavaScript string is a sequence of UTF-16 code units. Literals of the source are
  written \<open>js ''...''\<close>; a code unit that is not printable ASCII is written as a numeral.
\<close>

type_synonym code_unit = "16 word"
type_synonym jsstr = "code_unit list"

definition js :: "string \<Rightarrow> jsstr" where
  "js s = map of_char s"

text \<open>\<^verbatim>\<open>s.includes(m)\<close>: \<open>m\<close> occurs in \<open>s\<close> at some position.\<close>

fun str_includes :: "jsstr \<Rightarrow> jsstr \<Rightarrow> bool" where
  "str_includes [] m = (m = [])"
| "str_includes (c # cs) m = (prefix m (c # cs) \<or> str_includes cs m)"

text \<open>\<^verbatim>\<open>s.indexOf(m)\<close>: the first position at which \<open>m\<close> occurs, \<open>-1\<close> when there is none.\<close>

fun indexOf :: "jsstr \<Rightarrow> jsstr \<Rightarrow> int" where
  "indexOf [] m = (if m = [] then 0 else - 1)"
| "indexOf (c # cs) m =
     (if prefix m (c # cs) then 0
      else (let i = indexOf cs m in if i < 0 then - 1 else i + 1))"

text \<open>\<^verbatim>\<open>s.substring(i)\<close> with one argument: a negative start counts as 0.\<close>

definition substring :: "jsstr \<Rightarrow> int \<Rightarrow> jsstr" where
  "substring s i = drop (nat i) s"

text \<open>
  The code units \<^verbatim>\<open>trim()\<close> strips: ECMAScript's WhiteSpace (TAB, VT, FF, SP, NBSP,
  ZWNBSP and the space separators) and LineTerminator (LF, CR, LS, PS).
\<close>

definition isWhiteSpace :: "code_unit \<Rightarrow> bool" where
  "isWhiteSpace u \<longleftrightarrow>
     u = 0x09 \<or> u = 0x0A \<or> u = 0x0B \<or> u = 0x0C \<or> u = 0x0D \<or> u = 0x20 \<or> u = 0xA0
     \<or> u = 0x1680 \<or> (0x2000 \<le> u \<and> u \<le> 0x200A) \<or> u = 0x2028 \<or> u = 0x2029
     \<or> u = 0x202F \<or> u = 0x205F \<or> u = 0x3000 \<or> u = 0xFEFF"

definition trim :: "jsstr \<Rightarrow> jsstr" where
  "trim s = rev (dropWhile isWhiteSpace (rev (dropWhile isWhiteSpace s)))"

text \<open>
  \<^verbatim>\<open>s.split('\n')\<close>: the pieces between the line feeds, in order; a string with
  \<open>n\<close> line feeds has \<open>n + 1\<close> pieces, the last one the text after the last line feed.
\<close>

fun split_newline :: "jsstr \<Rightarrow> jsstr list" where
  "split_newline [] = [[]]"
| "split_newline (c # cs) =
     (if c = 0x0A then [] # split_newline cs
      else (case split_newline cs of
              [] \<Rightarrow> [[c]]
            | l # ls \<Rightarrow> (c # l) # ls))"

text \<open>\<^verbatim>\<open>lines.pop() || ""\<close>: the last piece, \<open>""\<close> when \<open>pop\<close> gives \<open>undefined\<close>.\<close>

definition pop_or_empty :: "jsstr list \<Rightarrow> jsstr" where
  "pop_or_empty lines = (if lines = [] then [] else last lines)"

text \<open>\<^verbatim>\<open>String(n)\<close> for a number that is an integer, and for \<^verbatim>\<open>null\<close>.\<close>

function show_nat :: "nat \<Rightarrow> jsstr" where
  "show_nat n =
     (if n < 10 then [of_nat (48 + n)]
      else show_nat (n div 10) @ [of_nat (48 + n mod 10)])"
  by pat_completeness auto
termination
  by (relation "measure id") auto

declare show_nat.simps [simp del]

definition show_int :: "int \<Rightarrow> jsstr" where
  "show_int i = (if i < 0 then js ''-'' @ show_nat (nat (- i)) else show_nat (nat i))"

definition show_code :: "int option \<Rightarrow> jsstr" where
  "show_code code = (case code of None \<Rightarrow> js ''null'' | Some i \<Rightarrow> show_int i)"

section \<open>Decoding a chunk\<close>

text \<open>
  \<^verbatim>\<open>data.toString()\<close> of a \<^verbatim>\<open>Buffer\<close> belongs to the runtime: it decodes the bytes of
  the buffer as UTF-8, and a byte that is not part of a well-formed sequence, or a sequence
  that the end of the buffer cuts short, becomes U+FFFD. This is the UTF-8 decoder of the
  Encoding Standard with its state (the code point so far, the bytes seen and needed, and
  the bounds of the next byte); each buffer is decoded on its own, from the initial state.
\<close>

record utf8_decoder =
  code_point :: nat
  bytes_seen :: nat
  bytes_needed :: nat
  lower_boundary :: nat
  upper_boundary :: nat

definition utf8_initial :: utf8_decoder where
  "utf8_initial =
     \<lparr>code_point = 0, bytes_seen = 0, bytes_needed = 0, lower_boundary = 0x80, upper_boundary = 0xBF\<rparr>"

text \<open>A byte read when no byte is needed: a lead byte, an ASCII byte, or an error.\<close>

definition utf8_lead :: "nat \<Rightarrow> utf8_decoder \<times> nat list" where
  "utf8_lead b =
     (if b \<le> 0x7F then (utf8_initial, [b])
      else if 0xC2 \<le> b \<and> b \<le> 0xDF then
        (utf8_initial\<lparr>bytes_needed := 1, code_point := b mod 0x20\<rparr>, [])
      else if 0xE0 \<le> b \<and> b \<le> 0xEF then
        (utf8_initial\<lparr>lower_boundary := (if b = 0xE0 then 0xA0 else 0x80),
                      upper_boundary := (if b = 0xED then 0x9F else 0xBF),
                      bytes_needed := 2, code_point := b mod 0x10\<rparr>, [])
      else if 0xF0 \<le> b \<and> b \<le> 0xF4 then
        (utf8_initial\<lparr>lower_boundary := (if b = 0xF0 then 0x90 else 0x80),
                      upper_boundary := (if b = 0xF4 then 0x8F else 0xBF),
                      bytes_needed := 3, code_point := b mod 0x08\<rparr>, [])
      else (utf8_initial, [0xFFFD]))"

text \<open>
  A byte read in the state \<open>d\<close>. A byte outside the bounds ends the sequence with an error
  and is then read again as a lead byte.
\<close>

definition utf8_byte :: "utf8_decoder \<Rightarrow> nat \<Rightarrow> utf8_decoder \<times> nat list" where
  "utf8_byte d b =
     (if bytes_needed d = 0 then utf8_lead b
      else if b < lower_boundary d \<or> upper_boundary d < b then
        (case utf8_lead b of (d', out) \<Rightarrow> (d', 0xFFFD # out))
      else
        (let cp = code_point d * 0x40 + b mod 0x40 in
         if bytes_seen d + 1 = bytes_needed d then (utf8_initial, [cp])
         else (d\<lparr>lower_boundary := 0x80, upper_boundary := 0xBF,
                 code_point := cp, bytes_seen := bytes_seen d + 1\<rparr>, [])))"

text \<open>The code points of a run of bytes; at the end, a sequence still open is an error.\<close>

fun utf8_run :: "utf8_decoder \<Rightarrow> nat list \<Rightarrow> nat list" where
  "utf8_run d [] = (if bytes_needed d = 0 then [] else [0xFFFD])"
| "utf8_run d (b # bs) = (case utf8_byte d b of (d', out) \<Rightarrow> out @ utf8_run d' bs)"

text \<open>The code units of a code point: itself, or a surrogate pair.\<close>

definition utf16 :: "nat \<Rightarrow> jsstr" where
  "utf16 cp =
     (if cp < 0x10000 then [of_nat cp]
      else [of_nat (0xD800 + (cp - 0x10000) div 0x400), of_nat (0xDC00 + (cp - 0x10000) mod 0x400)])"

definition toString :: "8 word list \<Rightarrow> jsstr" where
  "toString data = concat (map utf16 (utf8_run utf8_initial (map unat data)))"

section \<open>JSON values\<close>

text \<open>
  The values \<^verbatim>\<open>JSON.parse\<close> returns. \<^verbatim>\<open>JSON.parse\<close> itself belongs to the runtime: the
  handlers below take it as the parameter \<open>JSON_parse\<close>, \<open>None\<close> standing for the
  \<^verbatim>\<open>SyntaxError\<close> it throws on a text that is not JSON.
\<close>

datatype json =
    JNull
  | JBool bool
  | JNum real
  | JStr jsstr
  | JArr "json list"
  | JObj "(jsstr \<times> json) list"

text \<open>
  Reading a property \<^verbatim>\<open>v.key\<close> of a parsed value, for the keys the handlers read
  (\<^verbatim>\<open>content\<close>, \<^verbatim>\<open>name\<close>, \<^verbatim>\<open>input\<close>, \<^verbatim>\<open>attempt\<close>, \<^verbatim>\<open>error\<close>, \<^verbatim>\<open>attempts\<close>): on \<^verbatim>\<open>null\<close> it throws
  a \<^verbatim>\<open>TypeError\<close> (the outer \<open>None\<close>); an object gives the property's value or
  \<^verbatim>\<open>undefined\<close> (the inner \<open>None\<close>); a boolean, number, string or array has no such property.
\<close>

fun member :: "json \<Rightarrow> jsstr \<Rightarrow> json option option" where
  "member JNull key = None"
| "member (JObj props) key = Some (map_of props key)"
| "member v key = Some None"

section \<open>The events of the stream (app/api/modify-app/route.ts)\<close>

text \<open>
  The object each \<^verbatim>\<open>writer.write\<close> serialises, by its \<^verbatim>\<open>type\<close>. A field that is
  \<^verbatim>\<open>undefined\<close> is left out by \<^verbatim>\<open>JSON.stringify\<close>: it is \<open>None\<close> here.
\<close>

datatype event =
    Claude_message "json option"
  | Tool_use "json option" "json option"
  | Healing_message "json option" "json option"
  | Healing_tool "json option" "json option" "json option"
  | Healing_status jsstr "json option" "json option"
  | Modification_complete
  | Progress jsstr
  | Error_event jsstr
  | Complete

text \<open>What the writer accepts: \<^verbatim>\<open>data: <event>\n\n\<close> or the sentinel \<^verbatim>\<open>data: [DONE]\n\n\<close>.\<close>

datatype frame = Data event | Done

text \<open>The text handed to \<^verbatim>\<open>JSON.parse\<close>: what follows the first occurrence of the marker, trimmed.\<close>

definition payload :: "jsstr \<Rightarrow> jsstr \<Rightarrow> jsstr" where
  "payload line marker = trim (substring line (indexOf line marker + int (length marker)))"

text \<open>
  The body of the loop \<^verbatim>\<open>for (const line of lines)\<close> of the stdout handler, on a writer
  that accepts writes: the events written for one line. A \<^verbatim>\<open>try\<close> block that throws
  (on \<^verbatim>\<open>JSON.parse\<close> or on reading a property of \<^verbatim>\<open>null\<close>) writes nothing, and its
  \<^verbatim>\<open>catch\<close> ignores the error; only the \<^verbatim>\<open>catch\<close> of the \<^verbatim>\<open>__HEAL_FAILED__\<close> branch writes.
\<close>

definition handle_line :: "(jsstr \<Rightarrow> json option) \<Rightarrow> jsstr \<Rightarrow> event list" where
  "handle_line JSON_parse line =
    (if trim line = [] then []
     else if str_includes line (js ''__CLAUDE_MESSAGE__'') then
       (case Option.bind (JSON_parse (payload line (js ''__CLAUDE_MESSAGE__''))) (\<lambda>message.
             Option.bind (member message (js ''content'')) (\<lambda>content.
             Some (Claude_message content))) of
          Some e \<Rightarrow> [e]
        | None \<Rightarrow> [])
     else if str_includes line (js ''__TOOL_USE__'') then
       (case Option.bind (JSON_parse (payload line (js ''__TOOL_USE__''))) (\<lambda>toolUse.
             Option.bind (member toolUse (js ''name'')) (\<lambda>name.
             Option.bind (member toolUse (js ''input'')) (\<lambda>input.
             Some (Tool_use name input)))) of
          Some e \<Rightarrow> [e]
        | None \<Rightarrow> [])
     else if str_includes line (js ''__CLAUDE_FIX__'') then
       (case Option.bind (JSON_parse (payload line (js ''__CLAUDE_FIX__''))) (\<lambda>fixMessage.
             Option.bind (member fixMessage (js ''content'')) (\<lambda>content.
             Option.bind (member fixMessage (js ''attempt'')) (\<lambda>attempt.
             Some (Healing_message content attempt)))) of
          Some e \<Rightarrow> [e]
        | None \<Rightarrow> [])
     else if str_includes line (js ''__TOOL_FIX__'') then
       (case Option.bind (JSON_parse (payload line (js ''__TOOL_FIX__''))) (\<lambda>toolFix.
             Option.bind (member toolFix (js ''name'')) (\<lambda>name.
             Option.bind (member toolFix (js ''input'')) (\<lambda>input.
             Option.bind (member toolFix (js ''attempt'')) (\<lambda>attempt.
             Some (Healing_tool name input attempt))))) of
          Some e \<Rightarrow> [e]
        | None \<Rightarrow> [])
     else if str_includes line (js ''__HEALING_START__'') then
       [Healing_status (js ''starting'') None None]
     else if str_includes line (js ''__HEALING_END__'') then
       [Healing_status (js ''ended'') None None]
     else if str_includes line (js ''__HEAL_SUCCESS__'') then
       [Healing_status (js ''success'') None None]
     else if str_includes line (js ''__HEAL_FAILED__'') then
       (case Option.bind (JSON_parse (payload line (js ''__HEAL_FAILED__''))) (\<lambda>failInfo.
             Option.bind (member failInfo (js ''error'')) (\<lambda>error.
             Option.bind (member failInfo (js ''attempts'')) (\<lambda>attempts.
             Some (Healing_status (js ''failed'') error attempts)))) of
          Some e \<Rightarrow> [e]
        | None \<Rightarrow> [Healing_status (js ''failed'') None None])
     else if str_includes line (js ''__MODIFICATION_COMPLETE__'') then
       [Modification_complete]
     else
       (let output = trim line in
        if output \<noteq> []
           \<and> \<not> str_includes output (js ''[Claude]:'')
           \<and> \<not> str_includes output (js ''[Tool]:'')
           \<and> \<not> str_includes output (js ''__'')
        then [Progress output]
        else []))"

section \<open>The stream forwarder (POST of route.ts)\<close>

text \<open>
  The state the handlers of one request share: the partial-line \<^verbatim>\<open>buffer\<close>, the frames
  the writer has accepted, how often \<^verbatim>\<open>writer.close()\<close> was called, and whether the
  promise that waits for the child has been resolved or rejected.

  Each handler, and the code after the \<^verbatim>\<open>await\<close> of that promise, is taken to run to its
  end before the next event of the child is handled.
\<close>

record forwarder =
  buffer :: jsstr
  written :: "frame list"
  closes :: nat
  settled :: bool

definition initial :: forwarder where
  "initial = \<lparr>buffer = [], written = [], closes = 0, settled = False\<rparr>"

text \<open>
  \<^verbatim>\<open>await writer.write(...)\<close>, for a run of frames: a writer that has been closed rejects
  every write, so nothing is added (whether the rejection is swallowed by a \<^verbatim>\<open>catch\<close> or
  ends the handler).
\<close>

definition write_frames :: "frame list \<Rightarrow> forwarder \<Rightarrow> forwarder" where
  "write_frames fs s = (if closes s = 0 then s\<lparr>written := written s @ fs\<rparr> else s)"

definition close_writer :: "forwarder \<Rightarrow> forwarder" where
  "close_writer s = s\<lparr>closes := closes s + 1\<rparr>"

text \<open>\<^verbatim>\<open>child.stdout.on("data", ...)\<close>\<close>

definition stdout_on_data :: "(jsstr \<Rightarrow> json option) \<Rightarrow> jsstr \<Rightarrow> forwarder \<Rightarrow> forwarder" where
  "stdout_on_data JSON_parse data s =
     (let lines = split_newline (buffer s @ data) in
      write_frames (map Data (concat (map (handle_line JSON_parse) (butlast lines))))
        (s\<lparr>buffer := pop_or_empty lines\<rparr>))"

text \<open>\<^verbatim>\<open>child.stderr.on("data", ...)\<close>\<close>

definition stderr_on_data :: "jsstr \<Rightarrow> forwarder \<Rightarrow> forwarder" where
  "stderr_on_data error s =
     (if str_includes error (js ''Error'') \<or> str_includes error (js ''Failed'')
      then write_frames [Data (Error_event (trim error))] s
      else s)"

text \<open>
  The code after \<^verbatim>\<open>await new Promise(...)\<close>: on \<^verbatim>\<open>resolve\<close> the \<^verbatim>\<open>complete\<close> event and
  the sentinel; on \<^verbatim>\<open>reject\<close> the \<^verbatim>\<open>catch\<close> block, the \<^verbatim>\<open>error\<close> event with the error's
  message and the sentinel; then \<^verbatim>\<open>finally\<close> closes the writer.
\<close>

definition on_resolve :: "forwarder \<Rightarrow> forwarder" where
  "on_resolve s = close_writer (write_frames [Data Complete, Done] s)"

definition on_reject :: "jsstr \<Rightarrow> forwarder \<Rightarrow> forwarder" where
  "on_reject message s = close_writer (write_frames [Data (Error_event message), Done] s)"

text \<open>
  What the child process does, in the order the handlers see it. \<open>Stdout s\<close> and
  \<open>Stderr s\<close> are \<^verbatim>\<open>data\<close> events whose \<^verbatim>\<open>data.toString()\<close> is \<open>s\<close>.
\<close>

datatype child_event =
    Stdout jsstr
  | Stderr jsstr
  | Exit "int option"
  | Child_error jsstr

text \<open>
  \<^verbatim>\<open>child.on("exit", ...)\<close> and \<^verbatim>\<open>child.on("error", reject)\<close>: a promise is settled once,
  a later \<^verbatim>\<open>resolve\<close> or \<^verbatim>\<open>reject\<close> does nothing.
\<close>

definition on_exit :: "int option \<Rightarrow> forwarder \<Rightarrow> forwarder" where
  "on_exit code s =
     (if settled s then s
      else if code = Some 0 then on_resolve (s\<lparr>settled := True\<rparr>)
      else on_reject (js ''Process exited with code '' @ show_code code) (s\<lparr>settled := True\<rparr>))"

definition on_error :: "jsstr \<Rightarrow> forwarder \<Rightarrow> forwarder" where
  "on_error message s = (if settled s then s else on_reject message (s\<lparr>settled := True\<rparr>))"

fun on_event :: "(jsstr \<Rightarrow> json option) \<Rightarrow> forwarder \<Rightarrow> child_event \<Rightarrow> forwarder" where
  "on_event JSON_parse s (Stdout data) = stdout_on_data JSON_parse data s"
| "on_event JSON_parse s (Stderr data) = stderr_on_data data s"
| "on_event JSON_parse s (Exit code) = on_exit code s"
| "on_event JSON_parse s (Child_error message) = on_error message s"

text \<open>
  The asynchronous body of \<^verbatim>\<open>POST\<close>: either the \<^verbatim>\<open>try\<close> block throws before the handlers
  are in place (\<^verbatim>\<open>spawn\<close> or \<^verbatim>\<open>path.join\<close> throws), or the child runs and its events are
  handled in order.
\<close>

datatype child_run = Spawn_throws jsstr | Spawned "child_event list"

fun POST_stream :: "(jsstr \<Rightarrow> json option) \<Rightarrow> child_run \<Rightarrow> forwarder" where
  "POST_stream JSON_parse (Spawn_throws message) = on_reject message initial"
| "POST_stream JSON_parse (Spawned events) = foldl (on_event JSON_parse) initial events"

text \<open>The \<^verbatim>\<open>data\<close> events of a child whose standard output arrives in these buffers.\<close>

definition stdout_chunks :: "8 word list list \<Rightarrow> child_event list" where
  "stdout_chunks datas = map (\<lambda>data. Stdout (toString data)) datas"

section \<open>What the two scripts call and print (scripts/modify-app.ts)\<close>

text \<open>
  The file holds two scripts, each with its own \<^verbatim>\<open>verifyAndFixBuild\<close>: the modification
  script, which runs the build with \<^verbatim>\<open>runCommand\<close> and the repair with \<^verbatim>\<open>query\<close>, and the
  generation script, which runs both through \<^verbatim>\<open>sandbox.process.executeCommand\<close>.
\<close>

text \<open>The value \<^verbatim>\<open>runCommand\<close> resolves with.\<close>

record command_result =
  success :: bool
  output_text :: jsstr

text \<open>
  A message the iterator of \<^verbatim>\<open>query\<close> yields, by its \<^verbatim>\<open>type\<close>: \<^verbatim>\<open>'text'\<close> with its
  text, \<^verbatim>\<open>'tool_use'\<close> with its name and input, or any other type.
\<close>

datatype message = Text jsstr | Tool_use_message jsstr json | Other_message

text \<open>
  One call of \<^verbatim>\<open>query\<close>, drained by \<^verbatim>\<open>for await\<close>: the messages it yields, in order,
  and the \<^verbatim>\<open>message\<close> of the error it throws after them, if it throws.
\<close>

record query_run =
  messages :: "message list"
  thrown :: "jsstr option"

text \<open>The value \<^verbatim>\<open>sandbox.process.executeCommand\<close> resolves with; \<^verbatim>\<open>result\<close> may be undefined.\<close>

record execute_response =
  exitCode :: int
  result :: "jsstr option"

text \<open>
  The commands \<^verbatim>\<open>verifyAndFixBuild\<close> of the generation script passes to
  \<^verbatim>\<open>executeCommand\<close>: \<^verbatim>\<open>npm run build\<close>; the \<^verbatim>\<open>cat > fix-build.js\<close> that writes the fix script
  with the build error and the attempt filled in; \<^verbatim>\<open>node fix-build.js\<close>.
\<close>

datatype sdk_command = Npm_run_build | Write_fix_script jsstr nat | Node_fix_build

text \<open>
  What a run does, in order: \<^verbatim>\<open>console.log(text)\<close>; \<^verbatim>\<open>console.log(marker,
  JSON.stringify(value))\<close>; \<^verbatim>\<open>console.error\<close>; \<^verbatim>\<open>runCommand(command, ...)\<close>;
  \<^verbatim>\<open>query({prompt, ...})\<close>; \<^verbatim>\<open>sandbox.process.executeCommand\<close>.
\<close>

datatype effect =
    Log jsstr
  | Log_json jsstr json
  | Log_error jsstr
  | Run_command jsstr
  | Query jsstr
  | Execute sdk_command

section \<open>The build-repair loop of the modification script\<close>

text \<open>The template literals of the loop.\<close>

definition attempt_banner :: "nat \<Rightarrow> nat \<Rightarrow> jsstr" where
  "attempt_banner attempt maxAttempts =
     [0x0A, 0xD83D, 0xDD0D] @ js '' Build verification attempt '' @ show_nat attempt
     @ js ''/'' @ show_nat maxAttempts @ js ''...''"

definition build_failed_line :: "nat \<Rightarrow> nat \<Rightarrow> jsstr" where
  "build_failed_line attempt maxAttempts =
     [0x274C] @ js '' Build failed (attempt '' @ show_nat attempt
     @ js ''/'' @ show_nat maxAttempts @ js '')''"

definition still_failing_line :: "nat \<Rightarrow> jsstr" where
  "still_failing_line maxAttempts =
     [0x274C] @ js '' Build still failing after '' @ show_nat maxAttempts @ js '' attempts''"

definition attempting_fix_line :: jsstr where
  "attempting_fix_line =
     [0x0A, 0xD83D, 0xDD27] @ js '' Attempting to fix build errors with Claude Code...''"

definition fix_prompt :: "jsstr \<Rightarrow> jsstr" where
  "fix_prompt build_output =
     js ''I have a Next.js application that failed to build with the following error:\<newline>\<newline>''
     @ build_output
     @ js ''\<newline>\<newline>Please analyze the error and fix it by:\<newline>''
     @ js ''1. Reading the relevant files to understand the issue\<newline>''
     @ js ''2. Creating any missing components or files\<newline>''
     @ js ''3. Fixing import/export issues\<newline>''
     @ js ''4. Ensuring all required dependencies are properly installed\<newline>''
     @ js ''5. Making sure the application builds successfully\<newline>\<newline>''
     @ js ''The application is located in the current directory. ''
     @ js ''Focus on fixing the specific build errors mentioned.\<newline>\<newline>''
     @ js ''Important: Only make the minimal necessary changes to fix the build errors.''"

definition heal_failed :: "nat \<Rightarrow> effect" where
  "heal_failed maxAttempts =
     Log_json (js ''__HEAL_FAILED__'')
       (JObj [(js ''error'', JStr (js ''Build verification failed after multiple fix attempts'')),
              (js ''attempts'', JNum (of_nat maxAttempts))])"

text \<open>The body of \<^verbatim>\<open>for await (const message of query(...))\<close> in the repair.\<close>

fun log_fix_message :: "nat \<Rightarrow> message \<Rightarrow> effect list" where
  "log_fix_message attempt (Text text) =
     [Log_json (js ''__CLAUDE_FIX__'')
        (JObj [(js ''type'', JStr (js ''assistant'')),
               (js ''content'', JStr text),
               (js ''attempt'', JNum (of_nat attempt))])]"
| "log_fix_message attempt (Tool_use_message name input) =
     [Log_json (js ''__TOOL_FIX__'')
        (JObj [(js ''type'', JStr (js ''tool_use'')),
               (js ''name'', JStr name),
               (js ''input'', input),
               (js ''attempt'', JNum (of_nat attempt))])]"
| "log_fix_message attempt Other_message = []"

text \<open>
  The \<^verbatim>\<open>try\<close>/\<^verbatim>\<open>catch\<close> of one repair: the first \<^verbatim>\<open>__CLAUDE_FIX__\<close> line, the call of
  \<^verbatim>\<open>query\<close>, a line for each message it yields; then either the end of the \<^verbatim>\<open>try\<close>
  block or, when \<^verbatim>\<open>query\<close> throws, the \<^verbatim>\<open>catch\<close> block. Both end with \<^verbatim>\<open>__HEALING_END__\<close>.
\<close>

definition repair :: "(nat \<Rightarrow> jsstr \<Rightarrow> query_run) \<Rightarrow> nat \<Rightarrow> jsstr \<Rightarrow> effect list" where
  "repair query attempt prompt =
     (let run = query attempt prompt in
      [Log_json (js ''__CLAUDE_FIX__'')
         (JObj [(js ''type'', JStr (js ''assistant'')),
                (js ''content'', JStr (js ''Analyzing build errors and creating fixes...'')),
                (js ''attempt'', JNum (of_nat attempt))]),
       Query prompt]
      @ concat (map (log_fix_message attempt) (messages run))
      @ (case thrown run of
           None \<Rightarrow> [Log ([0x2705] @ js '' Build error fixing completed''),
                    Log (js ''__HEALING_END__'')]
         | Some error_message \<Rightarrow>
                   [Log_error (js ''Build fixing failed: '' @ error_message),
                    Log (js ''__HEALING_END__'')]))"

text \<open>
  The \<^verbatim>\<open>for\<close> loop of \<^verbatim>\<open>verifyAndFixBuild\<close> in the modification script, from \<open>attempt\<close>
  on: the value returned and what the run did. \<open>runCommand attempt\<close> is what
  \<^verbatim>\<open>npm run build\<close> gives in that attempt, \<open>query attempt prompt\<close> what \<^verbatim>\<open>query\<close> does
  there. The last line is the \<^verbatim>\<open>return false\<close> after the loop.
\<close>

function verify_loop ::
  "(nat \<Rightarrow> command_result) \<Rightarrow> (nat \<Rightarrow> jsstr \<Rightarrow> query_run) \<Rightarrow> nat \<Rightarrow> nat \<Rightarrow> bool \<times> effect list"
where
  "verify_loop runCommand query maxAttempts attempt =
     (if attempt \<le> maxAttempts then
        (let buildResult = runCommand attempt;
             verification = [Log (attempt_banner attempt maxAttempts),
                             Run_command (js ''npm run build'')]
         in if success buildResult then
              (True, verification @ [Log ([0x2705] @ js '' Build successful!'')])
            else
              (let failure = verification
                     @ [Log (build_failed_line attempt maxAttempts),
                        Log (js ''Build errors:''),
                        Log (output_text buildResult)]
               in if attempt < maxAttempts then
                    (case verify_loop runCommand query maxAttempts (attempt + 1) of
                       (returned, rest) \<Rightarrow>
                         (returned,
                          failure
                          @ [Log attempting_fix_line, Log (js ''__HEALING_START__'')]
                          @ repair query attempt (fix_prompt (output_text buildResult))
                          @ rest))
                  else
                    (False,
                     failure @ [Log (still_failing_line maxAttempts), heal_failed maxAttempts])))
      else (False, []))"
  by pat_completeness auto
termination
  by (relation "measure (\<lambda>(runCommand, query, maxAttempts, attempt). maxAttempts + 1 - attempt)") auto

declare verify_loop.simps [simp del]

text \<open>\<^verbatim>\<open>verifyAndFixBuild()\<close> of the modification script: \<^verbatim>\<open>const maxAttempts = 3\<close>.\<close>

definition verifyAndFixBuild ::
  "(nat \<Rightarrow> command_result) \<Rightarrow> (nat \<Rightarrow> jsstr \<Rightarrow> query_run) \<Rightarrow> bool \<times> effect list" where
  "verifyAndFixBuild runCommand query = verify_loop runCommand query 3 1"


section \<open>The build-repair loop of the generation script (generateWebsiteInDaytona)\<close>

text \<open>\<^verbatim>\<open>console.log\<close> of a string that may be undefined.\<close>

definition show_undefined :: "jsstr option \<Rightarrow> jsstr" where
  "show_undefined v = (case v of None \<Rightarrow> js ''undefined'' | Some s \<Rightarrow> s)"

text \<open>\<^verbatim>\<open>buildResult.result?.replace(/`/g, "\\`") || "Unknown build error"\<close>\<close>

definition build_error :: "jsstr option \<Rightarrow> jsstr" where
  "build_error v =
     (case v of
        None \<Rightarrow> js ''Unknown build error''
      | Some s \<Rightarrow>
          (let escaped = concat (map (\<lambda>u. if u = 0x60 then [0x5C, 0x60] else [u]) s)
           in if escaped = [] then js ''Unknown build error'' else escaped))"

text \<open>
  The \<^verbatim>\<open>for\<close> loop of \<^verbatim>\<open>verifyAndFixBuild\<close> of the generation script, from \<open>attempt\<close> on.
  \<open>executeCommand attempt command\<close> is what the call of \<^verbatim>\<open>sandbox.process.executeCommand\<close>
  with that command does in that attempt: \<open>Inr\<close> the response it resolves with, \<open>Inl\<close> the
  error it rejects with. The function has no handler for a rejection, which leaves it
  (\<open>Inl\<close>); otherwise it returns nothing (\<open>Inr ()\<close>).
\<close>

function verify_loop_daytona ::
  "(nat \<Rightarrow> sdk_command \<Rightarrow> jsstr + execute_response) \<Rightarrow> nat \<Rightarrow> nat \<Rightarrow> (jsstr + unit) \<times> effect list"
where
  "verify_loop_daytona executeCommand maxAttempts attempt =
     (if attempt \<le> maxAttempts then
        (let verification = [Log (attempt_banner attempt maxAttempts), Execute Npm_run_build]
         in case executeCommand attempt Npm_run_build of
              Inl rejection \<Rightarrow> (Inl rejection, verification)
            | Inr buildResult \<Rightarrow>
                if exitCode buildResult = 0 then
                  (Inr (), verification @ [Log ([0x2705] @ js '' Build successful!'')])
                else
                  (let failure = verification
                         @ [Log (build_failed_line attempt maxAttempts),
                            Log (js ''Build errors:''),
                            Log (show_undefined (result buildResult))]
                   in if attempt < maxAttempts then
                        (let fixScript = Write_fix_script (build_error (result buildResult)) attempt;
                             healing = failure
                               @ [Log attempting_fix_line, Log (js ''__HEALING_START__''),
                                  Execute fixScript]
                         in case executeCommand attempt fixScript of
                              Inl rejection \<Rightarrow> (Inl rejection, healing)
                            | Inr script_written \<Rightarrow>
                                (let running = healing
                                       @ [Log ([0xD83D, 0xDE80] @ js '' Running build error fix...''),
                                          Execute Node_fix_build]
                                 in case executeCommand attempt Node_fix_build of
                                      Inl rejection \<Rightarrow> (Inl rejection, running)
                                    | Inr fixResult \<Rightarrow>
                                        (case verify_loop_daytona executeCommand maxAttempts (attempt + 1) of
                                           (returned, rest) \<Rightarrow>
                                             (returned,
                                              running
                                              @ [Log (js ''Fix result: '' @ show_undefined (result fixResult)),
                                                 Log (js ''__HEALING_END__'')]
                                              @ (if exitCode fixResult \<noteq> 0 then
                                                   [Log ([0x26A0, 0xFE0F]
                                                      @ js '' Build fixing encountered issues, will retry build anyway'')]
                                                 else [])
                                              @ rest))))
                      else
                        (Inr (),
                         failure
                         @ [Log (still_failing_line maxAttempts), heal_failed maxAttempts,
                            Log ([0x26A0, 0xFE0F]
                              @ js '' Continuing with development server despite build issues...'')])))
      else (Inr (), []))"
  by pat_completeness auto
termination
  by (relation "measure (\<lambda>(executeCommand, maxAttempts, attempt). maxAttempts + 1 - attempt)") auto

declare verify_loop_daytona.simps [simp del]

text \<open>\<^verbatim>\<open>verifyAndFixBuild(sandbox, projectDir, claudeCodeDir, rootDir)\<close>: \<^verbatim>\<open>const maxAttempts = 3\<close>.\<close>

definition verifyAndFixBuild_daytona ::
  "(nat \<Rightarrow> sdk_command \<Rightarrow> jsstr + execute_response) \<Rightarrow> (jsstr + unit) \<times> effect list" where
  "verifyAndFixBuild_daytona executeCommand = verify_loop_daytona executeCommand 3 1"

section \<open>Vocabulary of the statements\<close>


text \<open>A build-verification call, and a corrective-repair invocation, among the effects of a run.\<close>

fun build_verification :: "effect \<Rightarrow> bool" where
  "build_verification (Run_command command) = (command = js ''npm run build'')"
| "build_verification (Execute command) = (command = Npm_run_build)"
| "build_verification e = False"

fun repair_invocation :: "effect \<Rightarrow> bool" where
  "repair_invocation (Query prompt) = True"
| "repair_invocation (Execute command) = (command = Node_fix_build)"
| "repair_invocation e = False"


fun is_stdout :: "child_event \<Rightarrow> bool" where
  "is_stdout (Stdout data) = True"
| "is_stdout (Stderr data) = False"
| "is_stdout (Exit code) = False"
| "is_stdout (Child_error message) = False"

text \<open>
  A \<^verbatim>\<open>JSON.parse\<close> for the concrete runs below: it knows the JSON texts listed, with the
  values they denote, and throws on every other text.
\<close>

definition JSON_parse_of :: "(jsstr \<times> json) list \<Rightarrow> jsstr \<Rightarrow> json option" where
  "JSON_parse_of known s = map_of known s"



section \<open>Strings and lines\<close>

lemma split_newline_not_Nil: "split_newline s \<noteq> []"
  by (induction s) (auto split: list.splits)

lemma split_newline_no_lf:
  "0x0A \<notin> set s \<Longrightarrow> split_newline (s @ t) = (s @ hd (split_newline t)) # tl (split_newline t)"
proof (induction s)
  case Nil
  then show ?case using split_newline_not_Nil [of t] by (cases "split_newline t") simp_all
next
  case (Cons c s)
  then show ?case by simp
qed

lemma last_split_newline_no_lf: "0x0A \<notin> set (last (split_newline s))"
proof (induction s)
  case Nil
  then show ?case by simp
next
  case (Cons c s)
  then show ?case
    using split_newline_not_Nil [of s]
    by (cases "split_newline s") (auto split: if_splits)
qed

lemma split_newline_append:
  "split_newline (s @ t) = butlast (split_newline s) @ split_newline (last (split_newline s) @ t)"
proof (induction s)
  case Nil
  then show ?case by simp
next
  case (Cons c s)
  show ?case
  proof (cases "c = 0x0A")
    case True
    then show ?thesis using Cons split_newline_not_Nil [of s] by simp
  next
    case False
    obtain l ls where s: "split_newline s = l # ls"
      using split_newline_not_Nil [of s] by (cases "split_newline s") auto
    show ?thesis
    proof (cases ls)
      case Nil
      then show ?thesis using False s Cons by simp
    next
      case (Cons l' ls')
      then show ?thesis using False s Cons.IH split_newline_not_Nil [of "last (l' # ls') @ t"]
        by (simp split: list.splits)
    qed
  qed
qed

lemma butlast_split_newline_append:
  "butlast (split_newline (s @ t)) =
     butlast (split_newline s) @ butlast (split_newline (last (split_newline s) @ t))"
  using split_newline_append [of s t] split_newline_not_Nil [of "last (split_newline s) @ t"]
  by (simp add: butlast_append)

lemma last_split_newline_append:
  "last (split_newline (s @ t)) = last (split_newline (last (split_newline s) @ t))"
  using split_newline_append [of s t] split_newline_not_Nil [of "last (split_newline s) @ t"]
  by simp

lemma pop_or_empty_split_newline: "pop_or_empty (split_newline s) = last (split_newline s)"
  by (simp add: pop_or_empty_def split_newline_not_Nil)

lemma split_newline_line:
  "0x0A \<notin> set line \<Longrightarrow> split_newline (line @ 0x0A # rest) = line # split_newline rest"
  using split_newline_no_lf [of line "0x0A # rest"] by simp

lemma last_split_newline_complete:
  assumes "pre = [] \<or> last pre = 0x0A"
  shows "last (split_newline pre) = []"
proof (cases "pre = []")
  case True
  then show ?thesis by simp
next
  case False
  with assms obtain p where p: "pre = p @ [0x0A]"
    by (metis append_butlast_last_id)
  have "split_newline (last (split_newline p) @ [0x0A]) = [last (split_newline p), []]"
    using split_newline_no_lf [OF last_split_newline_no_lf, of p "[0x0A]"] by simp
  then show ?thesis
    using last_split_newline_append [of p "[0x0A]"] p by simp
qed

lemma split_newline_lines:
  "\<forall>l\<in>set ls. 0x0A \<notin> set l \<Longrightarrow> 0x0A \<notin> set frag \<Longrightarrow>
   split_newline (concat (map (\<lambda>l. l @ [0x0A]) ls) @ frag) = ls @ [frag]"
proof (induction ls)
  case Nil
  then show ?case using split_newline_no_lf [of frag "[]"] by simp
next
  case (Cons l ls)
  then show ?case using split_newline_line [of l "concat (map (\<lambda>l. l @ [0x0A]) ls) @ frag"]
    by simp
qed



lemma trim_blank: "\<forall>u\<in>set line. isWhiteSpace u \<Longrightarrow> trim line = []"
proof -
  assume "\<forall>u\<in>set line. isWhiteSpace u"
  then have d: "dropWhile isWhiteSpace line = []" by (induction line) simp_all
  show ?thesis unfolding trim_def d by simp
qed



section \<open>The line demultiplexer\<close>

lemma stdout_on_data_twice:
  "stdout_on_data P d2 (stdout_on_data P d1 s) = stdout_on_data P (d1 @ d2) s"
proof -
  have b: "butlast (split_newline (buffer s @ d1 @ d2)) =
      butlast (split_newline (buffer s @ d1))
      @ butlast (split_newline (last (split_newline (buffer s @ d1)) @ d2))"
    using butlast_split_newline_append [of "buffer s @ d1" d2] by simp
  have l: "last (split_newline (buffer s @ d1 @ d2)) =
      last (split_newline (last (split_newline (buffer s @ d1)) @ d2))"
    using last_split_newline_append [of "buffer s @ d1" d2] by simp
  show ?thesis
    by (simp add: stdout_on_data_def write_frames_def Let_def pop_or_empty_split_newline b l)
qed

lemma stdout_on_data_chunks:
  "foldl (on_event P) (stdout_on_data P c s) (map Stdout chunks)
     = stdout_on_data P (c @ concat chunks) s"
proof (induction chunks arbitrary: c)
  case Nil
  then show ?case by simp
next
  case (Cons d chunks)
  have "foldl (on_event P) (stdout_on_data P c s) (map Stdout (d # chunks))
      = foldl (on_event P) (stdout_on_data P (c @ d) s) (map Stdout chunks)"
    by (simp add: stdout_on_data_twice)
  also have "\<dots> = stdout_on_data P ((c @ d) @ concat chunks) s"
    by (rule Cons.IH)
  finally show ?case by simp
qed

lemma stdout_on_data_empty_initial: "stdout_on_data P [] initial = initial"
  by (simp add: stdout_on_data_def initial_def write_frames_def pop_or_empty_def)

lemma stdout_texts_initial:
  "foldl (on_event P) initial (map Stdout chunks) = stdout_on_data P (concat chunks) initial"
  using stdout_on_data_chunks [of P "[]" initial chunks]
  by (simp add: stdout_on_data_empty_initial)

text \<open>
  Chunk-boundary independence of the decoded text. Whatever the chunks in which the text
  of the child's standard output arrives, the forwarder ends in the state (the frames
  written, in order, and the buffered fragment) in which it ends when the same text
  arrives as one chunk, and so does whatever the child does afterwards; in particular
  when the text arrives one code unit at a time.
\<close>

theorem chunk_boundary_independence:
  "POST_stream JSON_parse (Spawned (map Stdout chunks @ rest))
     = POST_stream JSON_parse (Spawned (Stdout (concat chunks) # rest))
   \<and> POST_stream JSON_parse (Spawned (map (\<lambda>u. Stdout [u]) t @ rest))
     = POST_stream JSON_parse (Spawned (Stdout t # rest))"
proof -
  have cat: "concat (map (\<lambda>u. [u]) t) = t"
    by (induction t) simp_all
  have "foldl (on_event JSON_parse) initial (map Stdout (map (\<lambda>u. [u]) t))
      = stdout_on_data JSON_parse t initial"
    using stdout_texts_initial [of JSON_parse "map (\<lambda>u. [u]) t"] by (simp only: cat)
  then have units: "foldl (on_event JSON_parse) initial (map (\<lambda>u. Stdout [u]) t)
      = stdout_on_data JSON_parse t initial"
    by (simp add: comp_def)
  show ?thesis
    by (simp add: stdout_texts_initial units)
qed

text \<open>
  It carries over to the bytes where decoding the buffers one by one gives the text of
  the whole, as it does for bytes below \<open>0x80\<close>.
\<close>

lemma utf8_run_ascii:
  "\<forall>b\<in>set bs. b \<le> 0x7F \<Longrightarrow> utf8_run utf8_initial bs = bs"
  by (induction bs) (simp_all add: utf8_byte_def utf8_lead_def utf8_initial_def)

lemma toString_ascii:
  "\<forall>b\<in>set data. b \<le> 0x7F \<Longrightarrow> toString data = map (\<lambda>b. of_nat (unat b)) data"
proof -
  assume a: "\<forall>b\<in>set data. b \<le> 0x7F"
  then have "\<forall>b\<in>set (map unat data). b \<le> 0x7F"
    by (auto simp: word_le_nat_alt)
  then have "utf8_run utf8_initial (map unat data) = map unat data"
    by (rule utf8_run_ascii)
  moreover have "concat (map utf16 (map unat data)) = map (\<lambda>b. of_nat (unat b)) data"
  proof (induction data)
    case Nil
    then show ?case by simp
  next
    case (Cons b data)
    have "unat b < 2 ^ LENGTH(8)" by (rule unsigned_less)
    then have "unat b < 0x10000" by simp
    then show ?case using Cons by (simp add: utf16_def)
  qed
  ultimately show ?thesis by (simp add: toString_def)
qed

theorem ascii_chunk_boundary_independence:
  assumes "\<forall>b\<in>set (concat datas). b \<le> 0x7F"
  shows "POST_stream JSON_parse (Spawned (stdout_chunks datas @ rest))
     = POST_stream JSON_parse (Spawned (stdout_chunks [concat datas] @ rest))"
proof -
  have "concat (map toString datas) = toString (concat datas)"
    using assms
  proof (induction datas)
    case Nil
    then show ?case by (simp add: toString_def utf8_initial_def)
  next
    case (Cons d datas)
    then show ?case by (simp add: toString_ascii)
  qed
  then show ?thesis
    using chunk_boundary_independence [of JSON_parse "map toString datas" rest]
    by (simp add: stdout_chunks_def comp_def)
qed

lemma toString_whole: "toString [0xE2, 0x9C, 0x85, 0x0A] = [0x2705, 0x0A]"
  by (simp add: toString_def utf8_byte_def utf8_lead_def utf8_initial_def utf16_def Let_def)

lemma toString_pieces: "map toString [[0xE2], [0x9C], [0x85, 0x0A]] = [[0xFFFD], [0xFFFD], [0xFFFD, 0x0A]]"
  by (simp add: toString_def utf8_byte_def utf8_lead_def utf8_initial_def utf16_def Let_def)

text \<open>
  C1. Feeding the chunks gives the events of feeding the whole text as one chunk: this
  fails in the code where a chunk boundary falls inside a multi-byte character, since
  each chunk is decoded on its own. The line \<^verbatim>\<open>E2 9C 85 0A\<close> (U+2705 and a line feed)
  is forwarded as a \<^verbatim>\<open>progress\<close> event with message U+2705 when it arrives in one buffer,
  and with three U+FFFD as message when it arrives in the buffers \<^verbatim>\<open>E2\<close>, \<^verbatim>\<open>9C\<close>,
  \<^verbatim>\<open>85 0A\<close>.
\<close>

theorem split_character_changes_events:
  "written (POST_stream (JSON_parse_of []) (Spawned (stdout_chunks [[0xE2], [0x9C], [0x85, 0x0A]])))
     = [Data (Progress [0xFFFD, 0xFFFD, 0xFFFD])]
   \<and> written (POST_stream (JSON_parse_of []) (Spawned (stdout_chunks [[0xE2, 0x9C, 0x85, 0x0A]])))
     = [Data (Progress [0x2705])]"
proof -
  have h1: "handle_line (JSON_parse_of []) [0xFFFD, 0xFFFD, 0xFFFD] = [Progress [0xFFFD, 0xFFFD, 0xFFFD]]"
    by (simp add: handle_line_def js_def trim_def isWhiteSpace_def)
  have h2: "handle_line (JSON_parse_of []) [0x2705] = [Progress [0x2705]]"
    by (simp add: handle_line_def js_def trim_def isWhiteSpace_def)
  show ?thesis
    using toString_whole toString_pieces
    by (simp add: stdout_chunks_def stdout_on_data_def write_frames_def initial_def Let_def
          pop_or_empty_def h1 h2)
qed

lemma stdout_drop_line:
  assumes "pre = [] \<or> last pre = 0x0A" and "0x0A \<notin> set line"
  shows "stdout_on_data P (pre @ line @ 0x0A # rest) initial
       = write_frames (map Data (concat (map (handle_line P) (butlast (split_newline pre)))
            @ handle_line P line
            @ concat (map (handle_line P) (butlast (split_newline rest)))))
           (initial\<lparr>buffer := last (split_newline rest)\<rparr>)"
    and "stdout_on_data P (pre @ rest) initial
       = write_frames (map Data (concat (map (handle_line P) (butlast (split_newline pre)))
            @ concat (map (handle_line P) (butlast (split_newline rest)))))
           (initial\<lparr>buffer := last (split_newline rest)\<rparr>)"
proof -
  have e: "last (split_newline pre) = []"
    using assms(1) by (rule last_split_newline_complete)
  have 1: "split_newline (pre @ line @ 0x0A # rest)
      = butlast (split_newline pre) @ line # split_newline rest"
    using split_newline_append [of pre "line @ 0x0A # rest"] e split_newline_line [OF assms(2)]
    by simp
  have 2: "split_newline (pre @ rest) = butlast (split_newline pre) @ split_newline rest"
    using split_newline_append [of pre rest] e by simp
  show "stdout_on_data P (pre @ line @ 0x0A # rest) initial
       = write_frames (map Data (concat (map (handle_line P) (butlast (split_newline pre)))
            @ handle_line P line
            @ concat (map (handle_line P) (butlast (split_newline rest)))))
           (initial\<lparr>buffer := last (split_newline rest)\<rparr>)"
    using split_newline_not_Nil [of rest]
    by (simp add: stdout_on_data_def initial_def Let_def pop_or_empty_def 1 butlast_append)
  show "stdout_on_data P (pre @ rest) initial
       = write_frames (map Data (concat (map (handle_line P) (butlast (split_newline pre)))
            @ concat (map (handle_line P) (butlast (split_newline rest)))))
           (initial\<lparr>buffer := last (split_newline rest)\<rparr>)"
    using split_newline_not_Nil [of rest]
    by (simp add: stdout_on_data_def initial_def Let_def pop_or_empty_def 2 butlast_append)
qed

lemma silent_line_dropped:
  assumes "pre = [] \<or> last pre = 0x0A" and "0x0A \<notin> set line" and "handle_line P line = []"
  shows "stdout_on_data P (pre @ line @ 0x0A # rest) initial = stdout_on_data P (pre @ rest) initial"
  using stdout_drop_line [OF assms(1,2), of P rest] assms(3) by simp




text \<open>
  C9. A line that is empty or holds only white space writes no event, and the stream
  that holds it as a complete line is forwarded exactly as the stream without it.
\<close>

theorem blank_line_skipped:
  assumes "\<forall>u\<in>set line. isWhiteSpace u"
  shows "handle_line JSON_parse line = []
   \<and> (0x0A \<notin> set line \<and> (pre = [] \<or> last pre = 0x0A) \<longrightarrow>
        POST_stream JSON_parse (Spawned (Stdout (pre @ line @ 0x0A # rest) # later))
          = POST_stream JSON_parse (Spawned (Stdout (pre @ rest) # later)))"
proof -
  have "handle_line JSON_parse line = []"
    using assms by (simp add: handle_line_def trim_blank)
  then show ?thesis
    using silent_line_dropped [of pre line JSON_parse rest] by simp
qed

theorem blank_line_witness:
  "handle_line (JSON_parse_of []) [0x20, 0x09, 0x3000] = []
   \<and> POST_stream (JSON_parse_of [])
        (Spawned (Stdout (js ''a\<newline>'' @ [0x20, 0x09, 0x3000] @ 0x0A # js ''b\<newline>'') # [Exit (Some 0)]))
     = POST_stream (JSON_parse_of [])
        (Spawned (Stdout (js ''a\<newline>'' @ js ''b\<newline>'') # [Exit (Some 0)]))"
proof -
  have b: "\<forall>u\<in>set [0x20, 0x09, 0x3000]. isWhiteSpace u"
    by (simp add: isWhiteSpace_def)
  have n: "0x0A \<notin> set [0x20, 0x09, 0x3000 :: code_unit]
      \<and> (js ''a\<newline>'' = [] \<or> last (js ''a\<newline>'') = 0x0A)"
    by (simp add: js_def)
  show ?thesis
    using blank_line_skipped [OF b, of "JSON_parse_of []" "js ''a\<newline>''" "js ''b\<newline>''"
        "[Exit (Some 0)]"] n
    by blast
qed

lemma on_event_buffer:
  "\<not> is_stdout x \<Longrightarrow> on_event P (s\<lparr>buffer := b\<rparr>) x = (on_event P s x)\<lparr>buffer := b\<rparr>"
  by (cases x)
     (simp_all add: stderr_on_data_def write_frames_def on_exit_def on_error_def on_resolve_def
        on_reject_def close_writer_def)

lemma on_events_buffer:
  "\<forall>x\<in>set later. \<not> is_stdout x \<Longrightarrow>
   foldl (on_event P) (s\<lparr>buffer := b\<rparr>) later = (foldl (on_event P) s later)\<lparr>buffer := b\<rparr>"
  by (induction later arbitrary: s) (simp_all add: on_event_buffer)

text \<open>
  C8. When the standard output is a run of complete lines followed by a fragment with
  no line feed, however it is cut into chunks, the events written are those of the
  complete lines; the fragment stays in the buffer, also after the child has ended, and
  the subscriber receives exactly what it receives for the stream without the fragment.
\<close>

theorem trailing_fragment_never_emitted:
  assumes "\<forall>l\<in>set ls. 0x0A \<notin> set l" and "0x0A \<notin> set frag"
    and "concat chunks = concat (map (\<lambda>l. l @ [0x0A]) ls) @ frag"
    and "\<forall>x\<in>set later. \<not> is_stdout x"
  shows "written (POST_stream P (Spawned (map Stdout chunks)))
           = map Data (concat (map (handle_line P) ls))
   \<and> buffer (POST_stream P (Spawned (map Stdout chunks @ later))) = frag
   \<and> written (POST_stream P (Spawned (map Stdout chunks @ later)))
       = written (POST_stream P (Spawned (Stdout (concat (map (\<lambda>l. l @ [0x0A]) ls)) # later)))"
proof -
  let ?body = "concat (map (\<lambda>l. l @ [0x0A]) ls)"
  let ?E = "map Data (concat (map (handle_line P) ls))"
  have s1: "split_newline (?body @ frag) = ls @ [frag]"
    using assms(1,2) by (rule split_newline_lines)
  have s2: "split_newline ?body = ls @ [[]]"
    using split_newline_lines [OF assms(1), of "[]"] by simp
  let ?s = "\<lparr>buffer = [], written = ?E, closes = 0, settled = False\<rparr>"
  have a: "stdout_on_data P (concat chunks) initial = ?s\<lparr>buffer := frag\<rparr>"
    by (simp add: assms(3) stdout_on_data_def Let_def s1 pop_or_empty_def write_frames_def initial_def)
  have b: "stdout_on_data P ?body initial = ?s"
    by (simp add: stdout_on_data_def Let_def s2 pop_or_empty_def write_frames_def initial_def)
  have "foldl (on_event P) (stdout_on_data P (concat chunks) initial) later
      = (foldl (on_event P) (stdout_on_data P ?body initial) later)\<lparr>buffer := frag\<rparr>"
    unfolding a b using assms(4) by (rule on_events_buffer)
  then show ?thesis
    by (simp add: stdout_texts_initial a)
qed

theorem trailing_fragment_witness:
  "written (POST_stream (JSON_parse_of [])
      (Spawned (map Stdout [js ''built\<newline>__HEAL'', js ''ING_START__''] @ [Exit (Some 0)])))
     = [Data (Progress (js ''built'')), Data Complete, Done]
   \<and> buffer (POST_stream (JSON_parse_of [])
      (Spawned (map Stdout [js ''built\<newline>__HEAL'', js ''ING_START__''] @ [Exit (Some 0)])))
     = js ''__HEALING_START__''"
proof -
  have l: "\<forall>l\<in>set [js ''built'']. 0x0A \<notin> set l" by (simp add: js_def)
  have f: "0x0A \<notin> set (js ''__HEALING_START__'')" by (simp add: js_def)
  have c: "concat [js ''built\<newline>__HEAL'', js ''ING_START__'']
      = concat (map (\<lambda>l. l @ [0x0A]) [js ''built'']) @ js ''__HEALING_START__''"
    by (simp add: js_def)
  have n: "\<forall>x\<in>set [Exit (Some 0)]. \<not> is_stdout x" by simp
  have h: "handle_line (JSON_parse_of []) (js ''built'') = [Progress (js ''built'')]"
    by (simp add: handle_line_def js_def trim_def isWhiteSpace_def)
  have s: "split_newline (js ''built\<newline>'') = [js ''built'', []]"
    by (simp add: js_def)
  have e: "written (POST_stream (JSON_parse_of []) (Spawned [Stdout (js ''built\<newline>''), Exit (Some 0)]))
      = [Data (Progress (js ''built'')), Data Complete, Done]"
    by (simp add: stdout_on_data_def write_frames_def initial_def Let_def pop_or_empty_def s h
          on_exit_def on_resolve_def close_writer_def)
  have b: "concat (map (\<lambda>l. l @ [0x0A]) [js ''built'']) = js ''built\<newline>''"
    by (simp add: js_def)
  show ?thesis
    using trailing_fragment_never_emitted [OF l f c n, of "JSON_parse_of []"] e
    unfolding b by simp
qed

section \<open>The stream forwarder\<close>


















section \<open>The build-repair loop\<close>

lemma repair_counts:
  "filter build_verification (repair query attempt prompt) = []"
  "length (filter repair_invocation (repair query attempt prompt)) = 1"
proof -
  have m: "filter build_verification (log_fix_message attempt m) = []
      \<and> filter repair_invocation (log_fix_message attempt m) = []" for m
    by (cases m) simp_all
  have ms: "filter build_verification (concat (map (log_fix_message attempt) ms)) = []
      \<and> filter repair_invocation (concat (map (log_fix_message attempt) ms)) = []" for ms
    by (induction ms) (simp_all add: m)
  show "filter build_verification (repair query attempt prompt) = []"
    by (simp add: repair_def Let_def ms split: option.splits)
  show "length (filter repair_invocation (repair query attempt prompt)) = 1"
    by (simp add: repair_def Let_def ms split: option.splits)
qed

lemma verify_loop_succeeds:
  "attempt \<le> maxAttempts \<Longrightarrow> success (runCommand attempt) \<Longrightarrow>
   verify_loop runCommand query maxAttempts attempt =
     (True, [Log (attempt_banner attempt maxAttempts), Run_command (js ''npm run build''),
             Log ([0x2705] @ js '' Build successful!'')])"
  by (subst verify_loop.simps) (simp add: Let_def)

lemma verify_loop_exhausted:
  "\<not> success (runCommand maxAttempts) \<Longrightarrow>
   verify_loop runCommand query maxAttempts maxAttempts =
     (False, [Log (attempt_banner maxAttempts maxAttempts), Run_command (js ''npm run build''),
              Log (build_failed_line maxAttempts maxAttempts), Log (js ''Build errors:''),
              Log (output_text (runCommand maxAttempts)),
              Log (still_failing_line maxAttempts), heal_failed maxAttempts])"
  by (subst verify_loop.simps) (simp add: Let_def)

lemma verify_loop_retries:
  "attempt < maxAttempts \<Longrightarrow> \<not> success (runCommand attempt) \<Longrightarrow>
   verify_loop runCommand query maxAttempts attempt =
     (fst (verify_loop runCommand query maxAttempts (Suc attempt)),
      [Log (attempt_banner attempt maxAttempts), Run_command (js ''npm run build''),
       Log (build_failed_line attempt maxAttempts), Log (js ''Build errors:''),
       Log (output_text (runCommand attempt)),
       Log attempting_fix_line, Log (js ''__HEALING_START__'')]
      @ repair query attempt (fix_prompt (output_text (runCommand attempt)))
      @ snd (verify_loop runCommand query maxAttempts (Suc attempt)))"
  by (subst verify_loop.simps) (simp add: Let_def split: prod.splits)

lemma verify_loop_always_failing:
  "\<forall>n. \<not> success (runCommand n) \<Longrightarrow> attempt \<le> maxAttempts \<Longrightarrow>
     fst (verify_loop runCommand query maxAttempts attempt) = False
     \<and> length (filter build_verification (snd (verify_loop runCommand query maxAttempts attempt)))
         = maxAttempts + 1 - attempt
     \<and> length (filter repair_invocation (snd (verify_loop runCommand query maxAttempts attempt)))
         = maxAttempts - attempt
     \<and> snd (verify_loop runCommand query maxAttempts attempt) \<noteq> []
     \<and> last (snd (verify_loop runCommand query maxAttempts attempt)) = heal_failed maxAttempts"
proof (induction runCommand query maxAttempts attempt rule: verify_loop.induct)
  case (1 runCommand query maxAttempts attempt)
  have f: "\<not> success (runCommand attempt)" using "1.prems" by simp
  show ?case
  proof (cases "attempt < maxAttempts")
    case True
    have ih: "fst (verify_loop runCommand query maxAttempts (Suc attempt)) = False
     \<and> length (filter build_verification (snd (verify_loop runCommand query maxAttempts (Suc attempt))))
         = maxAttempts + 1 - Suc attempt
     \<and> length (filter repair_invocation (snd (verify_loop runCommand query maxAttempts (Suc attempt))))
         = maxAttempts - Suc attempt
     \<and> snd (verify_loop runCommand query maxAttempts (Suc attempt)) \<noteq> []
     \<and> last (snd (verify_loop runCommand query maxAttempts (Suc attempt))) = heal_failed maxAttempts"
      using "1.IH" [OF _ refl refl f refl True] True "1.prems" by simp
    show ?thesis
      unfolding verify_loop_retries [of attempt maxAttempts runCommand query, OF True f]
      using True ih by (simp add: repair_counts del: build_verification.simps)
         (simp add: Suc_diff_Suc)
  next
    case False
    with "1.prems" have e: "attempt = maxAttempts" by simp
    show ?thesis
      unfolding e verify_loop_exhausted [of runCommand maxAttempts query, OF f [unfolded e]]
      by (simp add: heal_failed_def)
  qed
qed

lemma verify_loop_daytona_succeeds:
  "attempt \<le> maxAttempts \<Longrightarrow> executeCommand attempt Npm_run_build = Inr buildResult \<Longrightarrow>
   exitCode buildResult = 0 \<Longrightarrow>
   verify_loop_daytona executeCommand maxAttempts attempt =
     (Inr (), [Log (attempt_banner attempt maxAttempts), Execute Npm_run_build,
               Log ([0x2705] @ js '' Build successful!'')])"
  by (subst verify_loop_daytona.simps) (simp add: Let_def)

lemma verify_loop_daytona_exhausted:
  "executeCommand maxAttempts Npm_run_build = Inr buildResult \<Longrightarrow>
   exitCode buildResult \<noteq> 0 \<Longrightarrow>
   verify_loop_daytona executeCommand maxAttempts maxAttempts =
     (Inr (), [Log (attempt_banner maxAttempts maxAttempts), Execute Npm_run_build,
               Log (build_failed_line maxAttempts maxAttempts), Log (js ''Build errors:''),
               Log (show_undefined (result buildResult)),
               Log (still_failing_line maxAttempts), heal_failed maxAttempts,
               Log ([0x26A0, 0xFE0F]
                 @ js '' Continuing with development server despite build issues...'')])"
  by (subst verify_loop_daytona.simps) (simp add: Let_def)

lemma verify_loop_daytona_retries:
  "attempt < maxAttempts \<Longrightarrow> executeCommand attempt Npm_run_build = Inr buildResult \<Longrightarrow>
   exitCode buildResult \<noteq> 0 \<Longrightarrow>
   executeCommand attempt (Write_fix_script (build_error (result buildResult)) attempt)
     = Inr script_written \<Longrightarrow>
   executeCommand attempt Node_fix_build = Inr fixResult \<Longrightarrow>
   verify_loop_daytona executeCommand maxAttempts attempt =
     (fst (verify_loop_daytona executeCommand maxAttempts (Suc attempt)),
      [Log (attempt_banner attempt maxAttempts), Execute Npm_run_build,
       Log (build_failed_line attempt maxAttempts), Log (js ''Build errors:''),
       Log (show_undefined (result buildResult)),
       Log attempting_fix_line, Log (js ''__HEALING_START__''),
       Execute (Write_fix_script (build_error (result buildResult)) attempt),
       Log ([0xD83D, 0xDE80] @ js '' Running build error fix...''),
       Execute Node_fix_build,
       Log (js ''Fix result: '' @ show_undefined (result fixResult)),
       Log (js ''__HEALING_END__'')]
      @ (if exitCode fixResult \<noteq> 0 then
           [Log ([0x26A0, 0xFE0F]
              @ js '' Build fixing encountered issues, will retry build anyway'')]
         else [])
      @ snd (verify_loop_daytona executeCommand maxAttempts (Suc attempt)))"
  by (subst verify_loop_daytona.simps) (simp add: Let_def split: prod.splits)




text \<open>
  C7. With \<open>maxAttempts \<ge> 2\<close> and a build that fails in the first attempt and succeeds
  in the second, the loop of the modification script runs the build twice and the repair
  once, and returns \<^verbatim>\<open>true\<close>.
\<close>

theorem fails_once_then_succeeds:
  assumes "2 \<le> maxAttempts" and "\<not> success (runCommand 1)" and "success (runCommand 2)"
  shows "fst (verify_loop runCommand query maxAttempts 1) = True
     \<and> length (filter build_verification (snd (verify_loop runCommand query maxAttempts 1))) = 2
     \<and> length (filter repair_invocation (snd (verify_loop runCommand query maxAttempts 1))) = 1"
proof -
  have two: "Suc 1 = 2" by simp
  have a: "1 < maxAttempts" and b: "2 \<le> maxAttempts" using assms(1) by simp_all
  show ?thesis
    unfolding verify_loop_retries [of 1 maxAttempts runCommand query, OF a assms(2)] two
      verify_loop_succeeds [of 2 maxAttempts runCommand query, OF b assms(3)]
    by (simp add: repair_counts)
qed

theorem fails_once_then_succeeds_witness:
  "fst (verifyAndFixBuild (\<lambda>n. \<lparr>success = (n = 2), output_text = js ''Module not found''\<rparr>)
          (\<lambda>n prompt. \<lparr>messages = [Text (js ''fixing'')], thrown = None\<rparr>)) = True
   \<and> length (filter build_verification
        (snd (verifyAndFixBuild (\<lambda>n. \<lparr>success = (n = 2), output_text = js ''Module not found''\<rparr>)
          (\<lambda>n prompt. \<lparr>messages = [Text (js ''fixing'')], thrown = None\<rparr>)))) = 2
   \<and> length (filter repair_invocation
        (snd (verifyAndFixBuild (\<lambda>n. \<lparr>success = (n = 2), output_text = js ''Module not found''\<rparr>)
          (\<lambda>n prompt. \<lparr>messages = [Text (js ''fixing'')], thrown = None\<rparr>)))) = 1"
  using fails_once_then_succeeds [of 3
      "\<lambda>n. \<lparr>success = (n = 2), output_text = js ''Module not found''\<rparr>"
      "\<lambda>n prompt. \<lparr>messages = [Text (js ''fixing'')], thrown = None\<rparr>"]
  by (simp add: verifyAndFixBuild_def)

text \<open>
  C6. When, in an attempt below the ceiling whose build failed, \<^verbatim>\<open>query\<close> throws, the
  \<^verbatim>\<open>catch\<close> block logs the error and prints \<^verbatim>\<open>__HEALING_END__\<close>; the loop then goes on
  with the build of the next attempt, and what it returns is what the loop returns from
  that attempt on.
\<close>

theorem repair_exception_is_caught:
  assumes "attempt < maxAttempts" and "\<not> success (runCommand attempt)"
    and "thrown (query attempt (fix_prompt (output_text (runCommand attempt)))) = Some error_message"
  shows "verify_loop runCommand query maxAttempts attempt =
      (fst (verify_loop runCommand query maxAttempts (attempt + 1)),
       [Log (attempt_banner attempt maxAttempts), Run_command (js ''npm run build''),
        Log (build_failed_line attempt maxAttempts), Log (js ''Build errors:''),
        Log (output_text (runCommand attempt)),
        Log attempting_fix_line, Log (js ''__HEALING_START__''),
        Log_json (js ''__CLAUDE_FIX__'')
          (JObj [(js ''type'', JStr (js ''assistant'')),
                 (js ''content'', JStr (js ''Analyzing build errors and creating fixes...'')),
                 (js ''attempt'', JNum (of_nat attempt))]),
        Query (fix_prompt (output_text (runCommand attempt)))]
       @ concat (map (log_fix_message attempt)
           (messages (query attempt (fix_prompt (output_text (runCommand attempt))))))
       @ [Log_error (js ''Build fixing failed: '' @ error_message),
          Log (js ''__HEALING_END__'')]
       @ snd (verify_loop runCommand query maxAttempts (attempt + 1)))
     \<and> (\<exists>after. snd (verify_loop runCommand query maxAttempts (attempt + 1))
           = [Log (attempt_banner (attempt + 1) maxAttempts), Run_command (js ''npm run build'')]
             @ after)"
proof -
  have next_attempt: "\<exists>after. snd (verify_loop runCommand query maxAttempts (attempt + 1))
           = [Log (attempt_banner (attempt + 1) maxAttempts), Run_command (js ''npm run build'')]
             @ after"
    using assms(1)
    by (subst verify_loop.simps) (simp add: Let_def split: prod.splits)
  show ?thesis
    unfolding verify_loop_retries [of attempt maxAttempts runCommand query, OF assms(1,2)]
    using next_attempt assms(3) by (simp add: repair_def Let_def)
qed

theorem repair_exception_witness:
  "verifyAndFixBuild (\<lambda>n. \<lparr>success = (n = 2), output_text = js ''Module not found''\<rparr>)
      (\<lambda>n prompt. \<lparr>messages = [Text (js ''looking'')], thrown = Some (js ''rate limited'')\<rparr>)
   = (True,
      [Log (attempt_banner 1 3), Run_command (js ''npm run build''),
       Log (build_failed_line 1 3), Log (js ''Build errors:''),
       Log (js ''Module not found''),
       Log attempting_fix_line, Log (js ''__HEALING_START__''),
       Log_json (js ''__CLAUDE_FIX__'')
         (JObj [(js ''type'', JStr (js ''assistant'')),
                (js ''content'', JStr (js ''Analyzing build errors and creating fixes...'')),
                (js ''attempt'', JNum 1)]),
       Query (fix_prompt (js ''Module not found'')),
       Log_json (js ''__CLAUDE_FIX__'')
         (JObj [(js ''type'', JStr (js ''assistant'')),
                (js ''content'', JStr (js ''looking'')),
                (js ''attempt'', JNum 1)]),
       Log_error (js ''Build fixing failed: '' @ js ''rate limited''),
       Log (js ''__HEALING_END__''),
       Log (attempt_banner 2 3), Run_command (js ''npm run build''),
       Log ([0x2705] @ js '' Build successful!'')])"
proof -
  let ?B = "\<lambda>n::nat. \<lparr>success = (n = 2), output_text = js ''Module not found''\<rparr>"
  let ?Q = "\<lambda>(n::nat) (prompt::jsstr). \<lparr>messages = [Text (js ''looking'')], thrown = Some (js ''rate limited'')\<rparr>"
  have n: "verify_loop ?B ?Q 3 2
      = (True, [Log (attempt_banner 2 3), Run_command (js ''npm run build''),
                Log ([0x2705] @ js '' Build successful!'')])"
    by (rule verify_loop_succeeds) simp_all
  have h1: "(1::nat) < 3" by simp
  have h2: "\<not> success (?B 1)" by simp
  have h3: "thrown (?Q 1 (fix_prompt (output_text (?B 1)))) = Some (js ''rate limited'')" by simp
  note c = repair_exception_is_caught [of 1 3 ?B ?Q "js ''rate limited''", OF h1 h2 h3,
      THEN conjunct1, unfolded one_add_one n]
  show ?thesis
    unfolding verifyAndFixBuild_def using c by simp
qed

lemma markers_differ:
  "js ''__CLAUDE_FIX__'' \<noteq> js ''__HEAL_FAILED__''"
  "js ''__TOOL_FIX__'' \<noteq> js ''__HEAL_FAILED__''"
  by (simp_all add: js_def)

lemma repair_no_heal_failed:
  "Log_json (js ''__HEAL_FAILED__'') v \<notin> set (repair query attempt prompt)"
proof -
  have m: "Log_json (js ''__HEAL_FAILED__'') v \<notin> set (log_fix_message attempt m)" for m
    by (cases m) (simp_all add: markers_differ [symmetric])
  show ?thesis
    by (auto simp: repair_def Let_def m markers_differ [symmetric] split: option.splits)
qed

lemma verify_loop_exhausted_trace:
  "attempt \<le> maxAttempts \<Longrightarrow> \<not> fst (verify_loop runCommand query maxAttempts attempt) \<Longrightarrow>
   \<exists>before. snd (verify_loop runCommand query maxAttempts attempt)
       = before @ [Log (build_failed_line maxAttempts maxAttempts), Log (js ''Build errors:''),
                   Log (output_text (runCommand maxAttempts)),
                   Log (still_failing_line maxAttempts), heal_failed maxAttempts]
     \<and> (\<forall>v. Log_json (js ''__HEAL_FAILED__'') v \<notin> set before)"
proof (induction runCommand query maxAttempts attempt rule: verify_loop.induct)
  case (1 runCommand query maxAttempts attempt)
  have f: "\<not> success (runCommand attempt)"
    using "1.prems" verify_loop_succeeds [of attempt maxAttempts runCommand query] by auto
  show ?case
  proof (cases "attempt < maxAttempts")
    case True
    note step = verify_loop_retries [of attempt maxAttempts runCommand query, OF True f]
    have "\<not> fst (verify_loop runCommand query maxAttempts (Suc attempt))"
      using "1.prems"(2) step by simp
    then obtain before where b:
      "snd (verify_loop runCommand query maxAttempts (Suc attempt))
       = before @ [Log (build_failed_line maxAttempts maxAttempts), Log (js ''Build errors:''),
                   Log (output_text (runCommand maxAttempts)),
                   Log (still_failing_line maxAttempts), heal_failed maxAttempts]"
      "\<forall>v. Log_json (js ''__HEAL_FAILED__'') v \<notin> set before"
      using "1.IH" [OF _ refl refl f refl True] True by auto
    let ?before = "[Log (attempt_banner attempt maxAttempts), Run_command (js ''npm run build''),
       Log (build_failed_line attempt maxAttempts), Log (js ''Build errors:''),
       Log (output_text (runCommand attempt)),
       Log attempting_fix_line, Log (js ''__HEALING_START__'')]
      @ repair query attempt (fix_prompt (output_text (runCommand attempt))) @ before"
    have "snd (verify_loop runCommand query maxAttempts attempt)
       = ?before @ [Log (build_failed_line maxAttempts maxAttempts), Log (js ''Build errors:''),
                   Log (output_text (runCommand maxAttempts)),
                   Log (still_failing_line maxAttempts), heal_failed maxAttempts]"
      unfolding step by (simp add: b(1))
    moreover have "\<forall>v. Log_json (js ''__HEAL_FAILED__'') v \<notin> set ?before"
      using b(2) by (simp add: repair_no_heal_failed)
    ultimately show ?thesis by blast
  next
    case False
    with "1.prems" have e: "attempt = maxAttempts" by simp
    have "snd (verify_loop runCommand query maxAttempts attempt)
       = [Log (attempt_banner maxAttempts maxAttempts), Run_command (js ''npm run build'')]
         @ [Log (build_failed_line maxAttempts maxAttempts), Log (js ''Build errors:''),
                   Log (output_text (runCommand maxAttempts)),
                   Log (still_failing_line maxAttempts), heal_failed maxAttempts]"
      unfolding e verify_loop_exhausted [of runCommand maxAttempts query, OF f [unfolded e]]
      by simp
    moreover have "\<forall>v. Log_json (js ''__HEAL_FAILED__'') v
        \<notin> set [Log (attempt_banner maxAttempts maxAttempts), Run_command (js ''npm run build'')]"
      by simp
    ultimately show ?thesis by blast
  qed
qed

lemma verify_loop_daytona_exhausted_trace:
  "\<forall>n command. \<exists>response. executeCommand n command = Inr response \<Longrightarrow>
   \<forall>n response. executeCommand n Npm_run_build = Inr response \<longrightarrow> exitCode response \<noteq> 0 \<Longrightarrow>
   attempt \<le> maxAttempts \<Longrightarrow>
   \<exists>before buildResult. executeCommand maxAttempts Npm_run_build = Inr buildResult
     \<and> snd (verify_loop_daytona executeCommand maxAttempts attempt)
       = before @ [Log (build_failed_line maxAttempts maxAttempts), Log (js ''Build errors:''),
                   Log (show_undefined (result buildResult)),
                   Log (still_failing_line maxAttempts), heal_failed maxAttempts,
                   Log ([0x26A0, 0xFE0F]
                     @ js '' Continuing with development server despite build issues...'')]
     \<and> (\<forall>v. Log_json (js ''__HEAL_FAILED__'') v \<notin> set before)"
proof (induction executeCommand maxAttempts attempt rule: verify_loop_daytona.induct)
  case (1 executeCommand maxAttempts attempt)
  obtain b where b: "executeCommand attempt Npm_run_build = Inr b"
    using "1.prems"(1) by blast
  then have f: "exitCode b \<noteq> 0" using "1.prems"(2) by blast
  show ?case
  proof (cases "attempt < maxAttempts")
    case True
    obtain w where w: "executeCommand attempt (Write_fix_script (build_error (result b)) attempt) = Inr w"
      using "1.prems"(1) by blast
    obtain r where r: "executeCommand attempt Node_fix_build = Inr r"
      using "1.prems"(1) by blast
    note step = verify_loop_daytona_retries [of attempt maxAttempts executeCommand b w r, OF True b f w r]
    obtain before last_build where l:
      "executeCommand maxAttempts Npm_run_build = Inr last_build"
      "snd (verify_loop_daytona executeCommand maxAttempts (Suc attempt))
       = before @ [Log (build_failed_line maxAttempts maxAttempts), Log (js ''Build errors:''),
                   Log (show_undefined (result last_build)),
                   Log (still_failing_line maxAttempts), heal_failed maxAttempts,
                   Log ([0x26A0, 0xFE0F]
                     @ js '' Continuing with development server despite build issues...'')]"
      "\<forall>v. Log_json (js ''__HEAL_FAILED__'') v \<notin> set before"
      using "1.IH" [OF _ refl b f refl True refl refl w refl r] True "1.prems" by auto
    let ?before = "[Log (attempt_banner attempt maxAttempts), Execute Npm_run_build,
       Log (build_failed_line attempt maxAttempts), Log (js ''Build errors:''),
       Log (show_undefined (result b)),
       Log attempting_fix_line, Log (js ''__HEALING_START__''),
       Execute (Write_fix_script (build_error (result b)) attempt),
       Log ([0xD83D, 0xDE80] @ js '' Running build error fix...''),
       Execute Node_fix_build,
       Log (js ''Fix result: '' @ show_undefined (result r)),
       Log (js ''__HEALING_END__'')]
      @ (if exitCode r \<noteq> 0 then
           [Log ([0x26A0, 0xFE0F]
              @ js '' Build fixing encountered issues, will retry build anyway'')]
         else [])
      @ before"
    have "snd (verify_loop_daytona executeCommand maxAttempts attempt)
       = ?before @ [Log (build_failed_line maxAttempts maxAttempts), Log (js ''Build errors:''),
                   Log (show_undefined (result last_build)),
                   Log (still_failing_line maxAttempts), heal_failed maxAttempts,
                   Log ([0x26A0, 0xFE0F]
                     @ js '' Continuing with development server despite build issues...'')]"
      unfolding step by (simp add: l(2))
    moreover have "\<forall>v. Log_json (js ''__HEAL_FAILED__'') v \<notin> set ?before"
      using l(3) by simp
    ultimately show ?thesis using l(1) by blast
  next
    case False
    with "1.prems" have e: "attempt = maxAttempts" by simp
    have "snd (verify_loop_daytona executeCommand maxAttempts attempt)
       = [Log (attempt_banner maxAttempts maxAttempts), Execute Npm_run_build]
         @ [Log (build_failed_line maxAttempts maxAttempts), Log (js ''Build errors:''),
                   Log (show_undefined (result b)),
                   Log (still_failing_line maxAttempts), heal_failed maxAttempts,
                   Log ([0x26A0, 0xFE0F]
                     @ js '' Continuing with development server despite build issues...'')]"
      unfolding e verify_loop_daytona_exhausted [of executeCommand maxAttempts b, OF b [unfolded e] f]
      by simp
    moreover have "\<forall>v. Log_json (js ''__HEAL_FAILED__'') v
        \<notin> set [Log (attempt_banner maxAttempts maxAttempts), Execute Npm_run_build]"
      by simp
    ultimately show ?thesis using b e by blast
  qed
qed

text \<open>
  C4, as the code has it. When the loop ends exhausted, its \<^verbatim>\<open>__HEAL_FAILED__\<close> line, the
  only one of the run, carries the fixed text \<^verbatim>\<open>Build verification failed after multiple
  fix attempts\<close> as \<^verbatim>\<open>error\<close> and \<open>maxAttempts\<close> as \<^verbatim>\<open>attempts\<close>. The output of the last
  failed build is printed before it, as an ordinary line after \<^verbatim>\<open>Build errors:\<close>.
\<close>

theorem heal_failed_carries_fixed_text:
  assumes "1 \<le> maxAttempts"
  shows "(\<not> fst (verify_loop runCommand query maxAttempts 1) \<longrightarrow>
      (\<exists>before. snd (verify_loop runCommand query maxAttempts 1)
         = before @ [Log (build_failed_line maxAttempts maxAttempts), Log (js ''Build errors:''),
              Log (output_text (runCommand maxAttempts)),
              Log (still_failing_line maxAttempts),
              Log_json (js ''__HEAL_FAILED__'')
                (JObj [(js ''error'', JStr (js ''Build verification failed after multiple fix attempts'')),
                       (js ''attempts'', JNum (of_nat maxAttempts))])]
       \<and> (\<forall>v. Log_json (js ''__HEAL_FAILED__'') v \<notin> set before)))
   \<and> ((\<forall>n command. \<exists>response. executeCommand n command = Inr response)
      \<and> (\<forall>n response. executeCommand n Npm_run_build = Inr response \<longrightarrow> exitCode response \<noteq> 0) \<longrightarrow>
      (\<exists>before buildResult. executeCommand maxAttempts Npm_run_build = Inr buildResult
       \<and> snd (verify_loop_daytona executeCommand maxAttempts 1)
         = before @ [Log (build_failed_line maxAttempts maxAttempts), Log (js ''Build errors:''),
              Log (show_undefined (result buildResult)),
              Log (still_failing_line maxAttempts),
              Log_json (js ''__HEAL_FAILED__'')
                (JObj [(js ''error'', JStr (js ''Build verification failed after multiple fix attempts'')),
                       (js ''attempts'', JNum (of_nat maxAttempts))]),
              Log ([0x26A0, 0xFE0F]
                @ js '' Continuing with development server despite build issues...'')]
       \<and> (\<forall>v. Log_json (js ''__HEAL_FAILED__'') v \<notin> set before)))"
  using verify_loop_exhausted_trace [OF assms, of runCommand query]
    verify_loop_daytona_exhausted_trace [of executeCommand 1 maxAttempts] assms
  unfolding heal_failed_def by blast

theorem heal_failed_witness:
  "(\<exists>before. snd (verifyAndFixBuild (\<lambda>n. \<lparr>success = False, output_text = js ''Module not found''\<rparr>)
          (\<lambda>n prompt. \<lparr>messages = [], thrown = None\<rparr>))
      = before @ [Log (build_failed_line 3 3), Log (js ''Build errors:''),
              Log (js ''Module not found''),
              Log (still_failing_line 3),
              Log_json (js ''__HEAL_FAILED__'')
                (JObj [(js ''error'', JStr (js ''Build verification failed after multiple fix attempts'')),
                       (js ''attempts'', JNum 3)])])
   \<and> (\<exists>before. snd (verifyAndFixBuild_daytona
          (\<lambda>n command. Inr \<lparr>exitCode = 1, result = Some (js ''Module not found'')\<rparr>))
      = before @ [Log (build_failed_line 3 3), Log (js ''Build errors:''),
              Log (js ''Module not found''),
              Log (still_failing_line 3),
              Log_json (js ''__HEAL_FAILED__'')
                (JObj [(js ''error'', JStr (js ''Build verification failed after multiple fix attempts'')),
                       (js ''attempts'', JNum 3)]),
              Log ([0x26A0, 0xFE0F]
                @ js '' Continuing with development server despite build issues...'')])"
proof -
  let ?B = "\<lambda>n::nat. \<lparr>success = False, output_text = js ''Module not found''\<rparr>"
  let ?Q = "\<lambda>(n::nat) (prompt::jsstr). \<lparr>messages = [], thrown = None\<rparr>"
  let ?E = "\<lambda>(n::nat) (command::sdk_command). Inr \<lparr>exitCode = 1, result = Some (js ''Module not found'')\<rparr> :: jsstr + execute_response"
  have f: "\<not> fst (verify_loop ?B ?Q 3 1)"
    using verify_loop_always_failing [of ?B 1 3 ?Q] by simp
  show ?thesis
    using heal_failed_carries_fixed_text [of 3 ?B ?Q ?E] f
    by (simp add: verifyAndFixBuild_def verifyAndFixBuild_daytona_def show_undefined_def) blast
qed

text \<open>
  C4 as stated fails: after three builds that fail with \<^verbatim>\<open>Module not found\<close>, the
  \<^verbatim>\<open>error\<close> of the \<^verbatim>\<open>__HEAL_FAILED__\<close> line is the fixed text, not the output of the build.
\<close>

theorem heal_failed_diagnostic_counterexample:
  "last (snd (verifyAndFixBuild (\<lambda>n. \<lparr>success = False, output_text = js ''Module not found''\<rparr>)
          (\<lambda>n prompt. \<lparr>messages = [], thrown = None\<rparr>)))
     = Log_json (js ''__HEAL_FAILED__'')
         (JObj [(js ''error'', JStr (js ''Build verification failed after multiple fix attempts'')),
                (js ''attempts'', JNum 3)])
   \<and> js ''Build verification failed after multiple fix attempts'' \<noteq> js ''Module not found''"
  using verify_loop_always_failing [of "\<lambda>n. \<lparr>success = False, output_text = js ''Module not found''\<rparr>"
      1 3 "\<lambda>n prompt. \<lparr>messages = [], thrown = None\<rparr>"]
  by (simp add: verifyAndFixBuild_def heal_failed_def) (simp add: js_def)

end
